theory Spec2Isabelle
  imports Main "HOL-Library.Word" "HOL-Library.AList"
begin

unbundle bit_operations_syntax

section \<open>Data model\<close>

text \<open>
  The Go integers keep their width: \<open>int64\<close> and \<open>int32\<close> are words, compared as signed
  values where the source compares them. A time is the \<open>int64\<close> that \<open>UnixNano()\<close>
  returns and a \<open>time.Duration\<close> is an \<open>int64\<close> of nanoseconds; the deadline
  \<open>time.Now().Add(d).UnixNano()\<close> is their sum, which wraps around as every \<open>int64\<close>
  sum does. Each call of \<open>time.Now()\<close> in the source is a parameter of the function
  that makes it.
\<close>

type_synonym int64 = "64 word"
type_synonym int32 = "32 word"
type_synonym uint32 = "32 word"
type_synonym unix_nano = int64
type_synonym duration = int64

text \<open>
  Modelled from the spec: the interface \<open>Sized\<close> is declared outside the sources; a value
  may report a weight through it, and the weight of any other value is 1.
  A cached \<open>interface{}\<close> value is a pointer to an \<open>int64\<close> cell (the only kind the
  increment family looks into; the cell's content is kept with the value), a value that
  implements \<open>Sized\<close> (with what \<open>Size()\<close> returns), or any other value.
\<close>

datatype val = IntPtr int64 | SizedVal int64 nat | Plain nat

text \<open>
  \<open>ItemInt64\<close>. The field \<open>element\<close> is a pointer into the recency list that is set
  once, when the item is linked, and never cleared: the model keeps whether it is non-nil,
  and the list holds the addresses of the items whose element is still in it.
\<close>

record item =
  key :: int64
  group :: string
  promotions :: int32
  refCount :: int32
  expires :: unix_nano
  size_item :: int64
  value_item :: val
  element :: bool

text \<open>
  \<open>ConfigurationInt64\<close>. The callback \<open>onDelete\<close> acts on the world outside the
  cache, of type \<open>'w\<close>. Go's \<open>int\<close> is taken to be 64 bits wide, so that it holds
  every \<open>uint32\<close>: the counts set from a \<open>uint32\<close> are natural numbers.
\<close>

record 'w configuration =
  maxSize :: int64
  buckets_conf :: int
  itemsToPrune :: nat
  deleteBuffer :: nat
  promoteBuffer :: nat
  getsPerPromote :: int32
  tracking :: bool
  onDelete :: "(item \<Rightarrow> 'w \<Rightarrow> 'w) option"

text \<open>A shard's \<open>lookup\<close> map from keys to item addresses, with distinct keys.\<close>

type_synonym bucketInt64 = "(int64 \<times> nat) list"

text \<open>
  \<open>CacheInt64\<close>. Items live in \<open>heap\<close>, addressed by natural numbers, \<open>nitems\<close> is the
  next free address; \<open>lst\<close> is the recency list, most recent first; the two channels are
  queues of item addresses, oldest message first; \<open>dropped\<close> is the worker's local
  counter and \<open>world\<close> is what the callbacks act on.
\<close>

record 'w cache =
  conf :: "'w configuration"
  lst :: "nat list"
  size_cache :: int64
  buckets :: "bucketInt64 list"
  bucketMask :: int64
  deletables :: "nat list"
  promotables :: "nat list"
  heap :: "nat \<Rightarrow> item"
  nitems :: nat
  dropped :: nat
  world :: 'w

section \<open>Configuration\<close>

definition ConfigureInt64 :: "'w configuration" where
  "ConfigureInt64 =
     \<lparr>maxSize = 5000, buckets_conf = 16, itemsToPrune = 500, deleteBuffer = 1024,
      promoteBuffer = 1024, getsPerPromote = 3, tracking = False, onDelete = None\<rparr>"

definition MaxSize :: "int64 \<Rightarrow> 'w configuration \<Rightarrow> 'w configuration" where
  "MaxSize m c = c\<lparr>maxSize := m\<rparr>"

definition Buckets :: "uint32 \<Rightarrow> 'w configuration \<Rightarrow> 'w configuration" where
  "Buckets count c =
     (let count' = (if count = 0 \<or> ((count AND (NOT count + 1)) = count) = False
                    then 16 else count)
      in c\<lparr>buckets_conf := uint count'\<rparr>)"

definition ItemsToPrune :: "uint32 \<Rightarrow> 'w configuration \<Rightarrow> 'w configuration" where
  "ItemsToPrune count c = c\<lparr>itemsToPrune := unat count\<rparr>"

definition PromoteBuffer :: "uint32 \<Rightarrow> 'w configuration \<Rightarrow> 'w configuration" where
  "PromoteBuffer n c = c\<lparr>promoteBuffer := unat n\<rparr>"

definition DeleteBuffer :: "uint32 \<Rightarrow> 'w configuration \<Rightarrow> 'w configuration" where
  "DeleteBuffer n c = c\<lparr>deleteBuffer := unat n\<rparr>"

definition GetsPerPromote :: "int32 \<Rightarrow> 'w configuration \<Rightarrow> 'w configuration" where
  "GetsPerPromote count c = c\<lparr>getsPerPromote := count\<rparr>"


definition OnDelete :: "(item \<Rightarrow> 'w \<Rightarrow> 'w) \<Rightarrow> 'w configuration \<Rightarrow> 'w configuration" where
  "OnDelete callback c = c\<lparr>onDelete := Some callback\<rparr>"

text \<open>A bucket count is a power of two when it is one of \<open>1, 2, 4, ..., 2 ^ 31\<close>.\<close>

definition power_of_two :: "uint32 \<Rightarrow> bool" where
  "power_of_two count = (\<exists>n<32. count = 2 ^ n)"

section \<open>Items\<close>

definition newItemInt64 :: "int64 \<Rightarrow> val \<Rightarrow> unix_nano \<Rightarrow> bool \<Rightarrow> item" where
  "newItemInt64 k v e tr =
     (let sz = (case v of SizedVal n _ \<Rightarrow> n | _ \<Rightarrow> 1);
          item = \<lparr>key = k, group = [], promotions = 0, refCount = 0, expires = e,
                  size_item = sz, value_item = v, element = False\<rparr>
      in if tr then item\<lparr>refCount := 1\<rparr> else item)"

text \<open>\<open>shouldPromote\<close> counts the touch in the item and reports whether the threshold is met.\<close>

definition shouldPromote :: "int32 \<Rightarrow> item \<Rightarrow> bool \<times> item" where
  "shouldPromote gpp i =
     (let i' = i\<lparr>promotions := promotions i + 1\<rparr> in (promotions i' = gpp, i'))"

definition track :: "item \<Rightarrow> item" where
  "track i = i\<lparr>refCount := refCount i + 1\<rparr>"

definition Release :: "item \<Rightarrow> item" where
  "Release i = i\<lparr>refCount := refCount i + (- 1)\<rparr>"

definition Expired :: "item \<Rightarrow> unix_nano \<Rightarrow> bool" where
  "Expired i now = (expires i <s now)"


definition Extend :: "duration \<Rightarrow> unix_nano \<Rightarrow> item \<Rightarrow> item" where
  "Extend d now i = i\<lparr>expires := now + d\<rparr>"

text \<open>The heap cell of an address that has not been allocated.\<close>

definition nil_item :: item where
  "nil_item = \<lparr>key = 0, group = [], promotions = 0, refCount = 0, expires = 0,
               size_item = 0, value_item = Plain 0, element = False\<rparr>"

section \<open>The recency list\<close>

text \<open>
  The operations of Go's \<open>container/list\<close> that the cache uses, on the list of the
  linked items' addresses (front first). An item has at most one element in its life, so
  an element is named by its item. \<open>Remove\<close> and \<open>MoveToFront\<close> do nothing when the
  element is not in the list, as in Go.
\<close>

definition list_Back :: "nat list \<Rightarrow> nat option" where
  "list_Back l = (if l = [] then None else Some (last l))"

fun list_Prev :: "nat list \<Rightarrow> nat \<Rightarrow> nat option" where
  "list_Prev (x # y # ys) e = (if y = e then Some x else list_Prev (y # ys) e)"
| "list_Prev _ e = None"

definition list_Remove :: "nat list \<Rightarrow> nat \<Rightarrow> nat list" where
  "list_Remove l e = removeAll e l"

definition list_MoveToFront :: "nat list \<Rightarrow> nat \<Rightarrow> nat list" where
  "list_MoveToFront l e = (if e \<in> set l then e # removeAll e l else l)"

definition list_PushFront :: "nat list \<Rightarrow> nat \<Rightarrow> nat list" where
  "list_PushFront l e = e # l"

section \<open>Buckets\<close>

definition bucket_itemCount :: "bucketInt64 \<Rightarrow> nat" where
  "bucket_itemCount b = length b"

definition bucket_get :: "bucketInt64 \<Rightarrow> int64 \<Rightarrow> nat option" where
  "bucket_get b k = map_of b k"

definition bucket_delete :: "bucketInt64 \<Rightarrow> int64 \<Rightarrow> nat option \<times> bucketInt64" where
  "bucket_delete b k = (map_of b k, AList.delete k b)"

definition bucket_clear :: "bucketInt64 \<Rightarrow> bucketInt64" where
  "bucket_clear b = []"

text \<open>
  The methods that create an item work on the cache that holds the heap; \<open>b\<close> is the
  index of the bucket in \<open>buckets\<close>.
\<close>

definition alloc :: "item \<Rightarrow> 'w cache \<Rightarrow> nat \<times> 'w cache" where
  "alloc i c = (nitems c, c\<lparr>heap := (heap c)(nitems c := i), nitems := Suc (nitems c)\<rparr>)"

definition store :: "nat \<Rightarrow> bucketInt64 \<Rightarrow> 'w cache \<Rightarrow> 'w cache" where
  "store b l c = c\<lparr>buckets := (buckets c)[b := l]\<rparr>"

definition bucket_set ::
  "nat \<Rightarrow> int64 \<Rightarrow> val \<Rightarrow> duration \<Rightarrow> bool \<Rightarrow> unix_nano \<Rightarrow> 'w cache \<Rightarrow> (nat \<times> nat option) \<times> 'w cache"
where
  "bucket_set b k v d tr now c =
     (let ex = now + d;
          (item, c1) = alloc (newItemInt64 k v ex tr) c;
          existing = map_of (buckets c1 ! b) k
      in ((item, existing), store b (AList.update k item (buckets c1 ! b)) c1))"

definition bucket_incrNow ::
  "nat \<Rightarrow> int64 \<Rightarrow> int64 \<Rightarrow> unix_nano \<Rightarrow> duration \<Rightarrow> bool \<Rightarrow> 'w cache
     \<Rightarrow> (int64 \<times> nat option \<times> nat option) \<times> 'w cache"
where
  "bucket_incrNow b k n now d tr c =
     (let tm = now;
          ex = now + d;
          (item, c1) = alloc (newItemInt64 k (IntPtr n) ex tr) c;
          fresh = ((n, Some item, None), store b (AList.update k item (buckets c1 ! b)) c1)
      in case map_of (buckets c1 ! b) k of
           None \<Rightarrow> fresh
         | Some existing \<Rightarrow>
             if tm <s expires (heap c1 existing) then
               (case value_item (heap c1 existing) of
                  IntPtr v \<Rightarrow>
                    ((v + n, None, Some existing),
                     c1\<lparr>heap := (heap c1)
                          (existing := (heap c1 existing)\<lparr>value_item := IntPtr (v + n)\<rparr>)\<rparr>)
                | _ \<Rightarrow> fresh)
             else fresh)"

definition bucket_incr ::
  "nat \<Rightarrow> int64 \<Rightarrow> int64 \<Rightarrow> duration \<Rightarrow> bool \<Rightarrow> unix_nano \<Rightarrow> 'w cache
     \<Rightarrow> (int64 \<times> nat option \<times> nat option) \<times> 'w cache"
where
  "bucket_incr b k n d tr now c = bucket_incrNow b k n now d tr c"

definition bucket_incrNowPromote ::
  "nat \<Rightarrow> int64 \<Rightarrow> int64 \<Rightarrow> unix_nano \<Rightarrow> duration \<Rightarrow> bool \<Rightarrow> 'w cache
     \<Rightarrow> (int64 \<times> nat option \<times> nat option) \<times> 'w cache"
where
  "bucket_incrNowPromote b k n now d tr c =
     (let tm = now;
          ex = now + d;
          (item, c1) = alloc (newItemInt64 k (IntPtr n) ex tr) c;
          fresh = ((n, Some item, None), store b (AList.update k item (buckets c1 ! b)) c1)
      in case map_of (buckets c1 ! b) k of
           None \<Rightarrow> fresh
         | Some existing \<Rightarrow>
             if tm <s expires (heap c1 existing) then
               (case value_item (heap c1 existing) of
                  IntPtr v \<Rightarrow>
                    ((v + n, None, Some existing),
                     c1\<lparr>heap := (heap c1)
                          (existing := (heap c1 existing)
                             \<lparr>value_item := IntPtr (v + n), expires := ex\<rparr>)\<rparr>)
                | _ \<Rightarrow> fresh)
             else fresh)"

section \<open>The cache\<close>

text \<open>
  \<open>NewCacheInt64\<close>. The number of buckets \<open>bks\<close> is what \<open>NormalTo2N\<close> returns for the
  configured count; that function is not among the sources, so its result is a parameter.
\<close>

definition NewCacheInt64 :: "'w configuration \<Rightarrow> nat \<Rightarrow> 'w \<Rightarrow> 'w cache" where
  "NewCacheInt64 config bks w =
     \<lparr>conf = config, lst = [], size_cache = 0, buckets = replicate bks [],
      bucketMask = of_nat bks - 1, deletables = [], promotables = [],
      heap = (\<lambda>_. nil_item), nitems = 0, dropped = 0, world = w\<rparr>"

definition ItemCount :: "'w cache \<Rightarrow> nat" where
  "ItemCount c = sum_list (map bucket_itemCount (buckets c))"

text \<open>
  \<open>c.buckets[key&c.bucketMask]\<close>: the index of the key's bucket, or \<open>None\<close> when Go
  panics because the index is out of range. Every operation that reaches a bucket
  returns \<open>None\<close> for that panic.
\<close>

definition bucket :: "'w cache \<Rightarrow> int64 \<Rightarrow> nat option" where
  "bucket c k =
     (let i = sint (k AND bucketMask c)
      in if 0 \<le> i \<and> nat i < length (buckets c) then Some (nat i) else None)"

text \<open>
  The non-blocking send on \<open>promotables\<close>: the message is queued when the buffer has
  room and is dropped otherwise. (With a buffer of size 0 a send succeeds only while the
  worker is waiting to receive; the model drops it.)
\<close>

definition promote :: "nat \<Rightarrow> 'w cache \<Rightarrow> 'w cache" where
  "promote i c =
     (if length (promotables c) < promoteBuffer (conf c)
      then c\<lparr>promotables := promotables c @ [i]\<rparr> else c)"

text \<open>
  The blocking send on \<open>deletables\<close>: the caller waits while the buffer is full and the
  message is queued in the end, which is what the model records.
\<close>

definition send_delete :: "nat \<Rightarrow> 'w cache \<Rightarrow> 'w cache" where
  "send_delete i c = c\<lparr>deletables := deletables c @ [i]\<rparr>"

definition Get :: "int64 \<Rightarrow> unix_nano \<Rightarrow> 'w cache \<Rightarrow> (nat option \<times> 'w cache) option" where
  "Get k now c =
     (case bucket c k of
        None \<Rightarrow> None
      | Some b \<Rightarrow>
          (case bucket_get (buckets c ! b) k of
             None \<Rightarrow> Some (None, c)
           | Some item \<Rightarrow>
               Some (Some item, if \<not> Expired (heap c item) now then promote item c else c)))"

definition GetItem :: "int64 \<Rightarrow> 'w cache \<Rightarrow> nat option option" where
  "GetItem k c =
     (case bucket c k of None \<Rightarrow> None | Some b \<Rightarrow> Some (bucket_get (buckets c ! b) k))"

definition set_internal ::
  "int64 \<Rightarrow> val \<Rightarrow> duration \<Rightarrow> bool \<Rightarrow> unix_nano \<Rightarrow> 'w cache \<Rightarrow> (nat \<times> 'w cache) option"
where
  "set_internal k v d tr now c =
     (case bucket c k of
        None \<Rightarrow> None
      | Some b \<Rightarrow>
          (let ((item, existing), c1) = bucket_set b k v d tr now c;
               c2 = (case existing of None \<Rightarrow> c1 | Some e \<Rightarrow> send_delete e c1)
           in Some (item, promote item c2)))"

definition Set_cache ::
  "int64 \<Rightarrow> val \<Rightarrow> duration \<Rightarrow> unix_nano \<Rightarrow> 'w cache \<Rightarrow> 'w cache option"
where
  "Set_cache k v d now c = map_option snd (set_internal k v d False now c)"


definition TrackingGet ::
  "int64 \<Rightarrow> unix_nano \<Rightarrow> 'w cache \<Rightarrow> (nat option \<times> 'w cache) option"
where
  "TrackingGet k now c =
     (case Get k now c of
        None \<Rightarrow> None
      | Some (None, c1) \<Rightarrow> Some (None, c1)
      | Some (Some item, c1) \<Rightarrow>
          Some (Some item, c1\<lparr>heap := (heap c1)(item := track (heap c1 item))\<rparr>))"

text \<open>\<open>Release\<close> on the item at an address of the cache's heap.\<close>

definition release_item :: "nat \<Rightarrow> 'w cache \<Rightarrow> 'w cache" where
  "release_item i c = c\<lparr>heap := (heap c)(i := Release (heap c i))\<rparr>"

text \<open>
  \<open>Fetch\<close>. The loader is a function of the world outside the cache that returns an
  error or a value and the world it leaves. The three readings of the clock are those of
  \<open>Get\<close>, of the second \<open>Expired\<close> and of \<open>set\<close>.
\<close>

type_synonym gerror = string

definition Fetch ::
  "int64 \<Rightarrow> duration \<Rightarrow> ('w \<Rightarrow> (gerror + val) \<times> 'w) \<Rightarrow> unix_nano \<Rightarrow> unix_nano \<Rightarrow> unix_nano
     \<Rightarrow> 'w cache \<Rightarrow> ((gerror + nat) \<times> 'w cache) option"
where
  "Fetch k d fetch now1 now2 now3 c =
     (case Get k now1 c of
        None \<Rightarrow> None
      | Some (found, c1) \<Rightarrow>
          (let load =
                 (let (r, w) = fetch (world c1); c2 = c1\<lparr>world := w\<rparr>
                  in case r of
                       Inl err \<Rightarrow> Some (Inl err, c2)
                     | Inr v \<Rightarrow>
                         (case set_internal k v d False now3 c2 of
                            None \<Rightarrow> None
                          | Some (item, c3) \<Rightarrow> Some (Inr item, c3)))
           in case found of
                None \<Rightarrow> load
              | Some item \<Rightarrow>
                  if \<not> Expired (heap c1 item) now2 then Some (Inr item, c1) else load))"

definition Incr ::
  "int64 \<Rightarrow> int64 \<Rightarrow> duration \<Rightarrow> unix_nano \<Rightarrow> 'w cache \<Rightarrow> (int64 \<times> 'w cache) option"
where
  "Incr k n d now c =
     (case bucket c k of
        None \<Rightarrow> None
      | Some b \<Rightarrow>
          (let ((r, item, _), c1) = bucket_incr b k n d False now c
           in Some (r, case item of Some i \<Rightarrow> promote i c1 | None \<Rightarrow> c1)))"

definition IncrPromote ::
  "int64 \<Rightarrow> int64 \<Rightarrow> duration \<Rightarrow> unix_nano \<Rightarrow> 'w cache \<Rightarrow> (int64 \<times> 'w cache) option"
where
  "IncrPromote k n d now c =
     (case bucket c k of
        None \<Rightarrow> None
      | Some b \<Rightarrow>
          (let ((r, item, exi), c1) = bucket_incr b k n d False now c
           in Some (r, case item of
                         Some i \<Rightarrow> promote i c1
                       | None \<Rightarrow> (case exi of Some e \<Rightarrow> promote e c1 | None \<Rightarrow> c1))))"

section \<open>The worker\<close>

definition call_onDelete :: "item \<Rightarrow> 'w cache \<Rightarrow> 'w cache" where
  "call_onDelete item c =
     (case onDelete (conf c) of None \<Rightarrow> c | Some f \<Rightarrow> c\<lparr>world := f item (world c)\<rparr>)"

definition doDelete :: "nat \<Rightarrow> 'w cache \<Rightarrow> 'w cache" where
  "doDelete i c =
     (if \<not> element (heap c i)
      then c\<lparr>heap := (heap c)(i := (heap c i)\<lparr>promotions := - 2\<rparr>)\<rparr>
      else (let c1 = c\<lparr>size_cache := size_cache c - size_item (heap c i)\<rparr>;
                c2 = call_onDelete (heap c1 i) c1
            in c2\<lparr>lst := list_Remove (lst c2) i\<rparr>))"

definition doPromote :: "nat \<Rightarrow> 'w cache \<Rightarrow> bool \<times> 'w cache" where
  "doPromote i c =
     (if promotions (heap c i) = - 2 then (False, c)
      else if element (heap c i) then
        (let (p, item) = shouldPromote (getsPerPromote (conf c)) (heap c i);
             c1 = c\<lparr>heap := (heap c)(i := item)\<rparr>
         in if p
            then (False, c1\<lparr>lst := list_MoveToFront (lst c1) i,
                            heap := (heap c1)(i := (heap c1 i)\<lparr>promotions := 0\<rparr>)\<rparr>)
            else (False, c1))
      else (let c1 = c\<lparr>size_cache := size_cache c + size_item (heap c i)\<rparr>
            in (True, c1\<lparr>lst := list_PushFront (lst c1) i,
                         heap := (heap c1)(i := (heap c1 i)\<lparr>element := True\<rparr>)\<rparr>)))"

text \<open>
  What \<open>gc\<close> does to the candidate it evicts: the entry of the candidate's key leaves the
  shard, the weight is subtracted, the element is unlinked, the callback runs and the
  item is marked as removed.
\<close>

definition evict :: "nat \<Rightarrow> nat \<Rightarrow> 'w cache \<Rightarrow> 'w cache" where
  "evict b e c =
     (let item = heap c e;
          c1 = store b (snd (bucket_delete (buckets c ! b) (key item))) c;
          c2 = c1\<lparr>size_cache := size_cache c1 - size_item item\<rparr>;
          c3 = c2\<lparr>lst := list_Remove (lst c2) e\<rparr>;
          c4 = call_onDelete (heap c3 e) c3
      in c4\<lparr>heap := (heap c4)(e := (heap c4 e)\<lparr>promotions := - 2\<rparr>)\<rparr>)"

text \<open>
  The loop of \<open>gc\<close>: \<open>n\<close> iterations are left, \<open>el\<close> is the current element (\<open>None\<close> for
  nil) and \<open>dr\<close> the number of items dropped so far.
\<close>

fun gc_loop :: "nat \<Rightarrow> nat option \<Rightarrow> nat \<Rightarrow> 'w cache \<Rightarrow> (nat \<times> 'w cache) option" where
  "gc_loop 0 el dr c = Some (dr, c)"
| "gc_loop (Suc n) None dr c = Some (dr, c)"
| "gc_loop (Suc n) (Some e) dr c =
     (let prev = list_Prev (lst c) e
      in if tracking (conf c) = False \<or> refCount (heap c e) = 0
         then (case bucket c (key (heap c e)) of
                 None \<Rightarrow> None
               | Some b \<Rightarrow> gc_loop n prev (dr + 1) (evict b e c))
         else gc_loop n prev dr c)"

definition gc :: "'w cache \<Rightarrow> (nat \<times> 'w cache) option" where
  "gc c = gc_loop (itemsToPrune (conf c)) (list_Back (lst c)) 0 c"

text \<open>
  One turn of the worker's loop for each case of its \<open>select\<close>. A case whose channel is
  empty cannot be chosen; the model leaves the cache as it is.
\<close>

definition gc_if_over :: "'w cache \<Rightarrow> 'w cache option" where
  "gc_if_over c =
     (if maxSize (conf c) <s size_cache c
      then map_option (\<lambda>(n, c1). c1\<lparr>dropped := dropped c1 + n\<rparr>) (gc c)
      else Some c)"

definition worker_promote :: "'w cache \<Rightarrow> 'w cache option" where
  "worker_promote c =
     (case promotables c of
        [] \<Rightarrow> Some c
      | item # rest \<Rightarrow>
          (let (linked, c1) = doPromote item (c\<lparr>promotables := rest\<rparr>)
           in if linked then gc_if_over c1 else Some c1))"

definition worker_delete :: "'w cache \<Rightarrow> 'w cache option" where
  "worker_delete c =
     (case deletables c of
        [] \<Rightarrow> Some c
      | item # rest \<Rightarrow> Some (doDelete item (c\<lparr>deletables := rest\<rparr>)))"

text \<open>
  Modelled from the spec: the types of the control messages are declared outside the
  sources; the worker's handling of each is in the source. Closing the channels
  (\<open>Stop\<close>) is not modelled.
\<close>

datatype control = getDropped | setMaxSize int64 | clear

definition worker_control :: "control \<Rightarrow> 'w cache \<Rightarrow> (nat option \<times> 'w cache) option" where
  "worker_control msg c =
     (case msg of
        getDropped \<Rightarrow> Some (Some (dropped c), c\<lparr>dropped := 0\<rparr>)
      | setMaxSize n \<Rightarrow>
          map_option (Pair None) (gc_if_over (c\<lparr>conf := (conf c)\<lparr>maxSize := n\<rparr>\<rparr>))
      | clear \<Rightarrow>
          Some (None, c\<lparr>buckets := map bucket_clear (buckets c), size_cache := 0, lst := []\<rparr>))"

section \<open>Schedules\<close>

text \<open>
  A run of the program is a sequence of events, in the order in which they happen: the
  calls of a caller, each completed before the next event (the worker takes no turn
  between a call's update of the shard and its sends), and the turns of the worker, which
  handles one message per turn from the channel that the schedule names.
\<close>

datatype event =
    Call_Set int64 val duration unix_nano
  | Call_Get int64 unix_nano
  | Worker_promote
  | Worker_delete

fun step :: "event \<Rightarrow> 'w cache \<Rightarrow> 'w cache option" where
  "step (Call_Set k v d now) c = Set_cache k v d now c"
| "step (Call_Get k now) c = map_option snd (Get k now c)"
| "step Worker_promote c = worker_promote c"
| "step Worker_delete c = worker_delete c"

fun run :: "event list \<Rightarrow> 'w cache \<Rightarrow> 'w cache option" where
  "run [] c = Some c"
| "run (e # es) c = (case step e c of None \<Rightarrow> None | Some c1 \<Rightarrow> run es c1)"


section \<open>Well-formed caches\<close>

text \<open>
  A cache whose mask is not negative and below the number of buckets never panics on a
  bucket index: every cache made by \<open>NewCacheInt64\<close> with at least one bucket is so.
\<close>

definition wf_cache :: "'w cache \<Rightarrow> bool" where
  "wf_cache c = (0 \<le> sint (bucketMask c) \<and> nat (sint (bucketMask c)) < length (buckets c))"

text \<open>The item that the key's shard holds for the key, if any.\<close>

definition lookup :: "'w cache \<Rightarrow> int64 \<Rightarrow> nat option" where
  "lookup c k = (case GetItem k c of Some r \<Rightarrow> r | None \<Rightarrow> None)"

section \<open>Example states\<close>

definition ex_conf :: "int64 list configuration" where
  "ex_conf = OnDelete (\<lambda>i w. w @ [key i]) ConfigureInt64"

definition ex_new :: "int64 list cache" where
  "ex_new = NewCacheInt64 ex_conf 16 []"

text \<open>The new cache after \<open>Set(7, _, 60ns)\<close> at time 0, not yet seen by the worker.\<close>

definition ex_set7 :: "int64 list cache" where
  "ex_set7 = (case Set_cache 7 (Plain 1) 60 0 ex_new of Some c \<Rightarrow> c | None \<Rightarrow> ex_new)"

text \<open>The new cache after \<open>Set(7, _, -1s)\<close> at time 100.\<close>

definition ex_expired :: "int64 list cache" where
  "ex_expired = (case set_internal 7 (Plain 1) (- 1000000000) False 100 ex_new of
                   Some (i, c) \<Rightarrow> c | None \<Rightarrow> ex_new)"



text \<open>Two loaders: one fails, one returns a value; both leave a mark in the world.\<close>

definition ex_loader_fails :: "int64 list \<Rightarrow> (gerror + val) \<times> int64 list" where
  "ex_loader_fails w = (Inl ''unavailable'', w @ [99])"

definition ex_loader_ok :: "int64 list \<Rightarrow> (gerror + val) \<times> int64 list" where
  "ex_loader_ok w = (Inr (Plain 5), w @ [99])"

text \<open>The new cache after \<open>Incr(7, 5, 60ns)\<close> at time 0.\<close>

definition ex_incr :: "int64 list cache" where
  "ex_incr = (case Incr 7 5 60 0 ex_new of Some (r, c) \<Rightarrow> c | None \<Rightarrow> ex_new)"


text \<open>
  The same two keys, set and linked; key 7 is read once and the worker handles the
  message, and key 7 is then read three more times.
\<close>

definition ex_touched :: "int64 list cache" where
  "ex_touched =
     (case run [Call_Set 7 (Plain 1) 60 0, Call_Set 8 (Plain 2) 60 0, Worker_promote,
                Worker_promote, Call_Get 7 10, Worker_promote,
                Call_Get 7 11, Call_Get 7 12, Call_Get 7 13] ex_new of
        Some c \<Rightarrow> c | None \<Rightarrow> ex_new)"

section \<open>The scenario of three sets\<close>

text \<open>
  Max size 2, \<open>n\<close> items to prune, and a callback that writes the evicted key to the
  world; the keys A, B and C are 1, 2 and 3.
\<close>

definition sc_conf :: "uint32 \<Rightarrow> int64 list configuration" where
  "sc_conf n = OnDelete (\<lambda>i w. w @ [key i]) (ItemsToPrune n (MaxSize 2 ConfigureInt64))"

definition sc_cache :: "uint32 \<Rightarrow> int64 list cache" where
  "sc_cache n = NewCacheInt64 (sc_conf n) 16 []"

definition set_A :: event where "set_A = Call_Set 1 (Plain 0) 60 0"
definition set_B :: event where "set_B = Call_Set 2 (Plain 0) 60 1"
definition set_C :: event where "set_C = Call_Set 3 (Plain 0) 60 2"

text \<open>
  The five orders in which the three calls and the worker's handling of their three
  promote messages can happen.
\<close>

definition sc_schedules :: "event list list" where
  "sc_schedules =
     [[set_A, set_B, set_C, Worker_promote, Worker_promote, Worker_promote],
      [set_A, set_B, Worker_promote, set_C, Worker_promote, Worker_promote],
      [set_A, set_B, Worker_promote, Worker_promote, set_C, Worker_promote],
      [set_A, Worker_promote, set_B, set_C, Worker_promote, Worker_promote],
      [set_A, Worker_promote, set_B, Worker_promote, set_C, Worker_promote]]"

text \<open>
  What a run leaves: the number of evictions, the evicted keys in the order of their
  eviction, the item count, and the promote messages still waiting.
\<close>

definition outcome :: "int64 list cache \<Rightarrow> nat \<times> int64 list \<times> nat \<times> nat list" where
  "outcome c = (dropped c, world c, ItemCount c, promotables c)"

definition sc_outcome :: "uint32 \<Rightarrow> event list \<Rightarrow> (nat \<times> int64 list \<times> nat \<times> nat list) option" where
  "sc_outcome n evs = map_option outcome (run evs (sc_cache n))"


section \<open>The capacity bound\<close>




















section \<open>Bucket counts\<close>

lemma int_and_neg:
  "(x::int) \<noteq> 0 \<Longrightarrow> \<exists>n. x AND - x = 2 ^ n \<and> 2 ^ n dvd x"
proof (induction x rule: int_bit_induct)
  case zero
  then show ?case by simp
next
  case minus
  then show ?case by (auto intro: exI[of _ 0])
next
  case (even k)
  then obtain n where n: "k AND - k = 2 ^ n" "2 ^ n dvd k" by auto
  have "2 * k AND - (2 * k) = push_bit 1 k AND push_bit 1 (- k)"
    by (simp add: push_bit_eq_mult mult.commute)
  also have "\<dots> = push_bit 1 (k AND - k)"
    by (simp only: push_bit_and)
  finally have "2 * k AND - (2 * k) = 2 * 2 ^ n"
    using n by (simp add: push_bit_eq_mult)
  with n show ?case by (auto intro!: exI[of _ "Suc n"] simp: mult.commute)
next
  case (odd k)
  have "- (1 + 2 * k) = 1 + 2 * (NOT k)"
    by (simp add: not_int_def)
  then have "(1 + 2 * k) AND - (1 + 2 * k) = 1"
    apply (simp only:)
    apply (subst and_int_rec)
    apply simp
    done
  then show ?case by (auto intro!: exI[of _ 0] simp: mult.commute)
qed

lemma pow2_and_neg: "(2 ^ n :: uint32) AND - (2 ^ n) = 2 ^ n"
  by (metis and.right_neutral push_bit_and push_bit_minus push_bit_of_1)

lemma lowest_bit:
  assumes "(w :: uint32) \<noteq> 0"
  shows "\<exists>n<32. w AND - w = 2 ^ n"
proof -
  have x0: "uint w \<noteq> 0" using assms by (simp add: uint_0_iff)
  then obtain n where n: "uint w AND - uint w = 2 ^ n" "2 ^ n dvd uint w"
    using int_and_neg by blast
  have "w AND - w = word_of_int (uint w) AND word_of_int (- uint w)"
    by simp
  also have "\<dots> = word_of_int (uint w AND - uint w)"
    by (simp only: word_wi_log_defs)
  finally have e: "w AND - w = 2 ^ n" using n by simp
  have "uint w > 0" using x0 by (smt (verit) uint_ge_0)
  then have "(2::int) ^ n \<le> uint w" using n(2) by (rule zdvd_imp_le[rotated])
  moreover have "uint w < 2 ^ 32" using uint_lt2p[of w] by simp
  ultimately have "(2::int) ^ n < 2 ^ 32" by linarith
  moreover have "((2::int) ^ n < 2 ^ 32) = (n < 32)"
    by (rule power_strict_increasing_iff) simp
  ultimately have "n < 32" by blast
  with e show ?thesis by blast
qed

lemma power_of_two_test:
  "(w :: uint32) \<noteq> 0 \<Longrightarrow> (w AND (NOT w + 1) = w) = power_of_two w"
  using lowest_bit[of w] pow2_and_neg
  by (auto simp: minus_eq_not_plus_1[symmetric] power_of_two_def)

text \<open>
  Claim C9. For every count passed to \<open>Buckets\<close>: a count that is zero or not a power of
  two is replaced by the default 16, without any error; a power of two is kept as given.
\<close>

theorem Buckets_normalizes:
  "buckets_conf (Buckets count c) =
     (if count = 0 \<or> \<not> power_of_two count then 16 else uint count)"
  using power_of_two_test[of count] by (auto simp: Buckets_def)

theorem Buckets_normalizes_witness:
  "buckets_conf (Buckets 0 (ConfigureInt64 :: unit configuration)) = 16 \<and>
   buckets_conf (Buckets 12 (ConfigureInt64 :: unit configuration)) = 16 \<and>
   buckets_conf (Buckets 64 (ConfigureInt64 :: unit configuration)) = 64 \<and>
   \<not> power_of_two 12 \<and> power_of_two 64"
proof -
  have a: "buckets_conf (Buckets 12 (ConfigureInt64 :: unit configuration)) = 16"
    by (simp add: Buckets_def)
  have b: "buckets_conf (Buckets 64 (ConfigureInt64 :: unit configuration)) = 64"
    by (simp add: Buckets_def)
  have "\<not> power_of_two 12"
    using Buckets_normalizes[of 12 "ConfigureInt64 :: unit configuration"] a
    by (simp split: if_splits)
  moreover have "power_of_two 64"
    using Buckets_normalizes[of 64 "ConfigureInt64 :: unit configuration"] b
    by (simp split: if_splits)
  ultimately show ?thesis
    using a b by (simp add: Buckets_def)
qed

section \<open>Buckets and lookups\<close>




lemma bucket_Some_less: "bucket c k = Some b \<Longrightarrow> b < length (buckets c)"
  by (auto simp: bucket_def Let_def split: if_splits)

lemma lookup_bucket: "bucket c k = Some b \<Longrightarrow> lookup c k = map_of (buckets c ! b) k"
  by (simp add: lookup_def GetItem_def bucket_get_def)

lemma bucket_store [simp]: "bucket (store b l c) k = bucket c k"
  by (simp add: bucket_def store_def)

lemma lookup_store:
  assumes "bucket c k = Some b"
  shows "lookup (store b l c) k' = (if bucket c k' = Some b then map_of l k' else lookup c k')"
  using assms bucket_Some_less[OF assms]
  by (auto simp: lookup_def GetItem_def bucket_get_def store_def bucket_def Let_def split: if_splits option.splits)

lemma bucket_upd [simp]:
  "bucket (c\<lparr>promotables := p\<rparr>) = bucket c" "bucket (c\<lparr>deletables := dl\<rparr>) = bucket c"
  "bucket (c\<lparr>heap := h\<rparr>) = bucket c" "bucket (c\<lparr>nitems := n\<rparr>) = bucket c"
  "bucket (c\<lparr>lst := l\<rparr>) = bucket c" "bucket (c\<lparr>size_cache := sz\<rparr>) = bucket c"
  "bucket (c\<lparr>world := w\<rparr>) = bucket c" "bucket (c\<lparr>dropped := dr\<rparr>) = bucket c"
  "bucket (c\<lparr>conf := cf\<rparr>) = bucket c"
  by (simp_all add: bucket_def fun_eq_iff)

lemma lookup_upd [simp]:
  "lookup (c\<lparr>promotables := p\<rparr>) = lookup c" "lookup (c\<lparr>deletables := dl\<rparr>) = lookup c"
  "lookup (c\<lparr>heap := h\<rparr>) = lookup c" "lookup (c\<lparr>nitems := n\<rparr>) = lookup c"
  "lookup (c\<lparr>lst := l\<rparr>) = lookup c" "lookup (c\<lparr>size_cache := sz\<rparr>) = lookup c"
  "lookup (c\<lparr>world := w\<rparr>) = lookup c" "lookup (c\<lparr>dropped := dr\<rparr>) = lookup c"
  "lookup (c\<lparr>conf := cf\<rparr>) = lookup c"
  by (simp_all add: lookup_def GetItem_def fun_eq_iff cong: option.case_cong)

lemma lookup_store_same:
  "bucket c k = Some b \<Longrightarrow> lookup (store b l c) k = map_of l k"
  by (simp add: lookup_store)

lemma lookup_store_update:
  "bucket c k = Some b \<Longrightarrow>
   lookup (store b (AList.update k i (buckets c ! b)) c) k' = (if k' = k then Some i else lookup c k')"
  by (auto simp: lookup_store update_conv' lookup_bucket)


lemma promote_fields [simp]:
  "buckets (promote i c) = buckets c" "bucketMask (promote i c) = bucketMask c"
  "heap (promote i c) = heap c" "nitems (promote i c) = nitems c"
  "deletables (promote i c) = deletables c" "lst (promote i c) = lst c"
  "size_cache (promote i c) = size_cache c" "conf (promote i c) = conf c"
  "world (promote i c) = world c" "dropped (promote i c) = dropped c"
  by (simp_all add: promote_def)

lemma send_delete_fields [simp]:
  "buckets (send_delete i c) = buckets c" "bucketMask (send_delete i c) = bucketMask c"
  "heap (send_delete i c) = heap c" "nitems (send_delete i c) = nitems c"
  "promotables (send_delete i c) = promotables c" "lst (send_delete i c) = lst c"
  "size_cache (send_delete i c) = size_cache c" "conf (send_delete i c) = conf c"
  "world (send_delete i c) = world c" "dropped (send_delete i c) = dropped c"
  "deletables (send_delete i c) = deletables c @ [i]"
  by (simp_all add: send_delete_def)

lemma store_fields [simp]:
  "bucketMask (store b l c) = bucketMask c" "length (buckets (store b l c)) = length (buckets c)"
  "heap (store b l c) = heap c" "nitems (store b l c) = nitems c"
  "promotables (store b l c) = promotables c" "lst (store b l c) = lst c"
  "size_cache (store b l c) = size_cache c" "conf (store b l c) = conf c"
  "world (store b l c) = world c" "dropped (store b l c) = dropped c"
  "deletables (store b l c) = deletables c"
  by (simp_all add: store_def)

lemma bucket_promote [simp]: "bucket (promote i c) = bucket c"
  by (simp add: promote_def)

lemma bucket_send_delete [simp]: "bucket (send_delete i c) = bucket c"
  by (simp add: send_delete_def)

lemma lookup_promote [simp]: "lookup (promote i c) = lookup c"
  by (simp add: promote_def)

lemma lookup_send_delete [simp]: "lookup (send_delete i c) = lookup c"
  by (simp add: send_delete_def)

lemma bucket_store_fun [simp]: "bucket (store b l c) = bucket c"
  by (simp add: fun_eq_iff)

lemma set_internal_effect:
  assumes "bucket c k = Some b"
  shows "\<exists>c'. set_internal k v d tr now c = Some (nitems c, c')
      \<and> (tr = False \<longrightarrow> Set_cache k v d now c = Some c')
      \<and> lookup c' k = Some (nitems c)
      \<and> heap c' = (heap c)(nitems c := newItemInt64 k v (now + d) tr)
      \<and> (\<forall>k'. k' \<noteq> k \<longrightarrow> lookup c' k' = lookup c k')
      \<and> deletables c' = (case lookup c k of None \<Rightarrow> deletables c | Some e \<Rightarrow> deletables c @ [e])
      \<and> promotables c' =
           (if length (promotables c) < promoteBuffer (conf c)
            then promotables c @ [nitems c] else promotables c)
      \<and> nitems c' = Suc (nitems c) \<and> lst c' = lst c \<and> size_cache c' = size_cache c
      \<and> conf c' = conf c \<and> bucketMask c' = bucketMask c
      \<and> length (buckets c') = length (buckets c) \<and> world c' = world c
      \<and> dropped c' = dropped c"
proof -
  define c1 where "c1 = c\<lparr>heap := (heap c)(nitems c := newItemInt64 k v (now + d) tr),
                         nitems := Suc (nitems c)\<rparr>"
  have b1: "bucket c1 k = Some b" and bk: "buckets c1 = buckets c"
    using assms by (simp_all add: c1_def)
  have e: "map_of (buckets c ! b) k = lookup c k"
    using assms by (simp add: lookup_bucket)
  show ?thesis
    using assms lookup_store_update[OF b1, of "nitems c"] e
    by (cases "lookup c k")
       (simp_all add: set_internal_def Set_cache_def bucket_set_def alloc_def Let_def
          c1_def[symmetric] bk, simp_all add: promote_def c1_def)
qed

text \<open>
  Claim C7. For every key whose bucket exists, \<open>set\<close> stores a fresh entry for the key
  whatever the shard held (the other keys keep their entries); when an entry was displaced,
  exactly one delete message, for that entry, is added to the delete queue, and none
  otherwise; a promote message for the new entry is sent with the non-blocking send, so it
  is queued unless the promote buffer is full; the new entry is the one returned, and
  \<open>Set\<close> is \<open>set\<close> without tracking.
\<close>

theorem set_replaces:
  assumes "bucket c k = Some b"
  shows "\<exists>c'. set_internal k v d tr now c = Some (nitems c, c')
      \<and> (tr = False \<longrightarrow> Set_cache k v d now c = Some c')
      \<and> lookup c' k = Some (nitems c)
      \<and> heap c' (nitems c) = newItemInt64 k v (now + d) tr
      \<and> (\<forall>k'. k' \<noteq> k \<longrightarrow> lookup c' k' = lookup c k')
      \<and> deletables c' = (case lookup c k of None \<Rightarrow> deletables c | Some e \<Rightarrow> deletables c @ [e])
      \<and> promotables c' =
           (if length (promotables c) < promoteBuffer (conf c)
            then promotables c @ [nitems c] else promotables c)"
proof -
  obtain c' where "set_internal k v d tr now c = Some (nitems c, c')"
    "tr = False \<longrightarrow> Set_cache k v d now c = Some c'"
    "lookup c' k = Some (nitems c)"
    "heap c' = (heap c)(nitems c := newItemInt64 k v (now + d) tr)"
    "\<forall>k'. k' \<noteq> k \<longrightarrow> lookup c' k' = lookup c k'"
    "deletables c' = (case lookup c k of None \<Rightarrow> deletables c | Some e \<Rightarrow> deletables c @ [e])"
    "promotables c' =
           (if length (promotables c) < promoteBuffer (conf c)
            then promotables c @ [nitems c] else promotables c)"
    using set_internal_effect[OF assms, of v d tr now] by blast
  then show ?thesis by simp
qed

theorem set_replaces_witness:
  "bucket ex_set7 7 = Some 7 \<and> lookup ex_set7 7 = Some 0 \<and>
   (\<exists>c'. set_internal 7 (Plain 2) 60 False 5 ex_set7 = Some (1, c') \<and>
         Set_cache 7 (Plain 2) 60 5 ex_set7 = Some c' \<and>
         lookup c' 7 = Some 1 \<and> deletables c' = [0] \<and> promotables c' = [0, 1])"
proof -
  have h: "bucket ex_set7 7 = Some 7" by code_simp
  have l: "lookup ex_set7 7 = Some 0" by code_simp
  have n: "nitems ex_set7 = 1" by code_simp
  have d: "deletables ex_set7 = []" by code_simp
  have p: "promotables ex_set7 = [0]" by code_simp
  have pb: "promoteBuffer (conf ex_set7) = 1024" by code_simp
  show ?thesis
    using h set_replaces[OF h, of "Plain 2" 60 False 5] by (auto simp add: l n d p pb)
qed

section \<open>Reading\<close>


lemma GetItem_lookup: "bucket c k = Some b \<Longrightarrow> GetItem k c = Some (lookup c k)"
  by (simp add: lookup_def GetItem_def)

lemma Get_eq:
  assumes "bucket c k = Some b"
  shows "Get k now c =
     Some (lookup c k,
           case lookup c k of None \<Rightarrow> c
           | Some i \<Rightarrow> if Expired (heap c i) now then c else promote i c)"
  using assms lookup_bucket[OF assms]
  by (simp add: Get_def bucket_get_def split: option.splits)






section \<open>Fetch\<close>

lemma Get_frame:
  assumes "bucket c k = Some b"
  shows "\<exists>c1. Get k now c = Some (lookup c k, c1) \<and> world c1 = world c \<and> lookup c1 = lookup c
             \<and> heap c1 = heap c \<and> nitems c1 = nitems c \<and> deletables c1 = deletables c
             \<and> bucket c1 = bucket c \<and> lst c1 = lst c \<and> conf c1 = conf c"
  by (auto simp: Get_eq[OF assms] split: option.splits)

text \<open>
  Claim C6 (the clock reads \<open>tg\<close> in \<open>Get\<close>, \<open>tc\<close> at the second expiry check and
  \<open>ts\<close> in \<open>set\<close>). For every key whose bucket exists and every loader: when the shard holds an
  entry for the key that is not expired, \<open>Fetch\<close> returns it and the cache that \<open>Get\<close>
  leaves, in which the loader has no part and the world is untouched; on a miss or an
  expired entry the loader runs; when the loader fails, \<open>Fetch\<close> returns the loader's
  error and the shards, the heap and the delete queue are as before; when the loader
  succeeds, \<open>Fetch\<close> calls \<open>set\<close> and returns the new entry, which is then the one
  stored for the key.
\<close>

theorem Fetch_cases:
  assumes "bucket c k = Some b"
  shows "(lookup c k = Some i \<and> \<not> Expired (heap c i) tc \<longrightarrow>
            (\<exists>c1. Get k tg c = Some (Some i, c1) \<and>
                  Fetch k d fetch tg tc ts c = Some (Inr i, c1) \<and>
                  world c1 = world c \<and> lookup c1 = lookup c \<and> nitems c1 = nitems c))
       \<and> ((lookup c k = None \<or> (\<exists>j. lookup c k = Some j \<and> Expired (heap c j) tc)) \<longrightarrow>
            (fst (fetch (world c)) = Inl err \<longrightarrow>
               (\<exists>c2. Fetch k d fetch tg tc ts c = Some (Inl err, c2) \<and>
                     world c2 = snd (fetch (world c)) \<and> lookup c2 = lookup c \<and>
                     heap c2 = heap c \<and> nitems c2 = nitems c \<and>
                     deletables c2 = deletables c))
          \<and> (fst (fetch (world c)) = Inr v \<longrightarrow>
               (\<exists>c1 c3. Get k tg c = Some (lookup c k, c1) \<and>
                     set_internal k v d False ts (c1\<lparr>world := snd (fetch (world c))\<rparr>)
                       = Some (nitems c, c3) \<and>
                     Fetch k d fetch tg tc ts c = Some (Inr (nitems c), c3) \<and>
                     lookup c3 k = Some (nitems c) \<and>
                     heap c3 (nitems c) = newItemInt64 k v (ts + d) False \<and>
                     world c3 = snd (fetch (world c)))))"
proof -
  obtain c1 where c1: "Get k tg c = Some (lookup c k, c1)" "world c1 = world c"
    "lookup c1 = lookup c" "heap c1 = heap c" "nitems c1 = nitems c"
    "deletables c1 = deletables c" "bucket c1 = bucket c"
    using Get_frame[OF assms, of tg] by blast
  let ?c2 = "c1\<lparr>world := snd (fetch (world c))\<rparr>"
  have b2: "bucket ?c2 k = Some b" using assms c1 by simp
  obtain c3 where c3: "set_internal k v d False ts ?c2 = Some (nitems ?c2, c3)"
    "lookup c3 k = Some (nitems ?c2)"
    "heap c3 (nitems ?c2) = newItemInt64 k v (ts + d) False"
    using set_internal_effect[OF b2, of v d False ts] by auto
  have w3: "world c3 = snd (fetch (world c))"
    using c3(1) by (auto simp: set_internal_def bucket_set_def alloc_def Let_def split_def
        split: option.splits)
  show ?thesis
    using c1 c3 w3
    by (auto simp: Fetch_def Let_def split_def split: option.splits sum.splits)
qed

theorem Fetch_cases_witness:
  "bucket ex_set7 7 = Some 7 \<and> lookup ex_set7 7 = Some 0 \<and> \<not> Expired (heap ex_set7 0) 10 \<and>
   (\<exists>c1. Fetch 7 60 ex_loader_fails 10 10 10 ex_set7 = Some (Inr 0, c1) \<and> world c1 = []) \<and>
   bucket ex_new 7 = Some 7 \<and> lookup ex_new 7 = None \<and>
   fst (ex_loader_fails (world ex_new)) = Inl ''unavailable'' \<and>
   (\<exists>c2. Fetch 7 60 ex_loader_fails 10 10 10 ex_new = Some (Inl ''unavailable'', c2) \<and>
         lookup c2 7 = None \<and> world c2 = [99]) \<and>
   bucket ex_expired 7 = Some 7 \<and> lookup ex_expired 7 = Some 0 \<and>
   Expired (heap ex_expired 0) 100 \<and>
   fst (ex_loader_ok (world ex_expired)) = Inr (Plain 5) \<and>
   (\<exists>c3. Fetch 7 60 ex_loader_ok 100 100 100 ex_expired = Some (Inr 1, c3) \<and>
         lookup c3 7 = Some 1)"
proof -
  have h1: "bucket ex_set7 7 = Some 7" by code_simp
  have l1: "lookup ex_set7 7 = Some 0" by code_simp
  have e1: "\<not> Expired (heap ex_set7 0) 10" by code_simp
  have w1: "world ex_set7 = []" by code_simp
  have h0: "bucket ex_new 7 = Some 7" by code_simp
  have l0: "lookup ex_new 7 = None" by code_simp
  have f0: "fst (ex_loader_fails (world ex_new)) = Inl ''unavailable''" by code_simp
  have s0: "snd (ex_loader_fails (world ex_new)) = [99]" by code_simp
  have h2: "bucket ex_expired 7 = Some 7" by code_simp
  have l2: "lookup ex_expired 7 = Some 0" by code_simp
  have e2: "Expired (heap ex_expired 0) 100" by code_simp
  have f2: "fst (ex_loader_ok (world ex_expired)) = Inr (Plain 5)" by code_simp
  have n2: "nitems ex_expired = 1" by code_simp
  have A: "\<exists>c1. Fetch 7 60 ex_loader_fails 10 10 10 ex_set7 = Some (Inr 0, c1) \<and> world c1 = []"
    using Fetch_cases[OF h1, where i=0 and tg=10 and tc=10 and ts=10 and d=60 and fetch=ex_loader_fails] l1 e1 w1 by auto
  have B: "\<exists>c2. Fetch 7 60 ex_loader_fails 10 10 10 ex_new = Some (Inl ''unavailable'', c2) \<and>
         lookup c2 7 = None \<and> world c2 = [99]"
    using Fetch_cases[OF h0, where tg=10 and tc=10 and ts=10 and d=60
        and fetch=ex_loader_fails and err="''unavailable''"] l0 f0 s0 by auto
  have C: "\<exists>c3. Fetch 7 60 ex_loader_ok 100 100 100 ex_expired = Some (Inr 1, c3) \<and>
         lookup c3 7 = Some 1"
    using Fetch_cases[OF h2, where tg=100 and tc=100 and ts=100 and d=60
        and fetch=ex_loader_ok and v="Plain 5"] l2 e2 f2 n2
    by auto
  show ?thesis using h1 l1 e1 h0 l0 f0 h2 l2 e2 f2 A B C by simp
qed

section \<open>The increment family\<close>

lemma alloc_eq:
  "alloc i c = (nitems c, c\<lparr>heap := (heap c)(nitems c := i), nitems := Suc (nitems c)\<rparr>)"
  by (simp add: alloc_def)

lemma incrNow_fresh:
  assumes "bucket c k = Some b"
    and "lookup c k = None \<or>
         (\<exists>e. lookup c k = Some e \<and> e \<noteq> nitems c \<and>
              (expires (heap c e) \<le>s now \<or> (\<forall>v. value_item (heap c e) \<noteq> IntPtr v)))"
  shows "bucket_incr b k n d tr now c =
           ((n, Some (nitems c), None),
            store b (AList.update k (nitems c) (buckets c ! b))
              (c\<lparr>heap := (heap c)(nitems c := newItemInt64 k (IntPtr n) (now + d) tr),
                  nitems := Suc (nitems c)\<rparr>))"
  using assms(2) lookup_bucket[OF assms(1)]
  by (auto simp: bucket_incr_def bucket_incrNow_def alloc_eq Let_def
      split: option.splits val.splits)

lemma incrNow_hit:
  assumes "bucket c k = Some b" "lookup c k = Some e" "e \<noteq> nitems c"
    "now <s expires (heap c e)" "value_item (heap c e) = IntPtr v"
  shows "bucket_incr b k n d tr now c =
           ((v + n, None, Some e),
            c\<lparr>heap := (heap c)(nitems c := newItemInt64 k (IntPtr n) (now + d) tr,
                               e := (heap c e)\<lparr>value_item := IntPtr (v + n)\<rparr>),
               nitems := Suc (nitems c)\<rparr>)"
  using assms lookup_bucket[OF assms(1)]
  by (auto simp: bucket_incr_def bucket_incrNow_def alloc_eq Let_def
      split: option.splits val.splits)

lemma incrNowPromote_hit:
  assumes "bucket c k = Some b" "lookup c k = Some e" "e \<noteq> nitems c"
    "now <s expires (heap c e)" "value_item (heap c e) = IntPtr v"
  shows "bucket_incrNowPromote b k n now d tr c =
           ((v + n, None, Some e),
            c\<lparr>heap := (heap c)(nitems c := newItemInt64 k (IntPtr n) (now + d) tr,
                               e := (heap c e)\<lparr>value_item := IntPtr (v + n), expires := now + d\<rparr>),
               nitems := Suc (nitems c)\<rparr>)"
  using assms lookup_bucket[OF assms(1)]
  by (auto simp: bucket_incrNowPromote_def alloc_eq Let_def
      split: option.splits val.splits)

text \<open>
  Claim C10. For every call of \<open>Incr\<close> or \<open>IncrPromote\<close> on a key whose entry is expired
  (its deadline is not after the call's time) or holds no integer pointer, the shard maps
  the key to a fresh entry that holds the delta, the displaced entry stays as it was, no
  delete message is queued for it, and the only promote message sent is for the new entry;
  \<open>set\<close> on the same cache queues a delete message for the displaced entry.
\<close>

theorem Incr_displaces_silently:
  assumes "bucket c k = Some b" "lookup c k = Some e" "e < nitems c"
    and "expires (heap c e) \<le>s now \<or> (\<forall>v. value_item (heap c e) \<noteq> IntPtr v)"
  shows "\<exists>c'. Incr k n d now c = Some (n, c') \<and> IncrPromote k n d now c = Some (n, c')
      \<and> lookup c' k = Some (nitems c) \<and> nitems c \<noteq> e
      \<and> heap c' (nitems c) = newItemInt64 k (IntPtr n) (now + d) False
      \<and> heap c' e = heap c e
      \<and> deletables c' = deletables c
      \<and> promotables c' =
           (if length (promotables c) < promoteBuffer (conf c)
            then promotables c @ [nitems c] else promotables c)
      \<and> (\<exists>c''. set_internal k x d False now c = Some (nitems c, c'')
               \<and> deletables c'' = deletables c @ [e])"
proof -
  define c1 where "c1 = c\<lparr>heap := (heap c)(nitems c := newItemInt64 k (IntPtr n) (now + d) False),
                         nitems := Suc (nitems c)\<rparr>"
  have b1: "bucket c1 k = Some b" and bk: "buckets c1 = buckets c"
    using assms(1) by (simp_all add: c1_def)
  have f: "bucket_incr b k n d False now c =
             ((n, Some (nitems c), None), store b (AList.update k (nitems c) (buckets c ! b)) c1)"
    using incrNow_fresh[OF assms(1), of now n d False] assms(2-4) by (auto simp: c1_def)
  have s: "\<exists>c''. set_internal k x d False now c = Some (nitems c, c'') \<and>
               deletables c'' = deletables c @ [e]"
    using set_internal_effect[OF assms(1), of x d False now] assms(2) by auto
  show ?thesis
    using assms(1-3) f s lookup_store_update[OF b1, of "nitems c" k]
    by (simp add: Incr_def IncrPromote_def bk)
       (simp add: promote_def c1_def)
qed

theorem Incr_displaces_silently_witness:
  "bucket ex_expired 7 = Some 7 \<and> lookup ex_expired 7 = Some 0 \<and> 0 < nitems ex_expired \<and>
   expires (heap ex_expired 0) \<le>s 100 \<and>
   (\<exists>c'. Incr 7 5 60 100 ex_expired = Some (5, c') \<and>
         IncrPromote 7 5 60 100 ex_expired = Some (5, c') \<and>
         lookup c' 7 = Some 1 \<and> value_item (heap c' 1) = IntPtr 5 \<and>
         deletables c' = [] \<and> promotables c' = [0, 1]) \<and>
   (\<exists>c''. set_internal 7 (Plain 2) 60 False 100 ex_expired = Some (1, c'') \<and>
         deletables c'' = [0])"
proof -
  have h: "bucket ex_expired 7 = Some 7" by code_simp
  have l: "lookup ex_expired 7 = Some 0" by code_simp
  have n: "nitems ex_expired = 1" by code_simp
  have e: "expires (heap ex_expired 0) \<le>s 100" by code_simp
  have d: "deletables ex_expired = []" by code_simp
  have p: "promotables ex_expired = [0]" by code_simp
  have pb: "promoteBuffer (conf ex_expired) = 1024" by code_simp
  have i: "(0::nat) < nitems ex_expired" using n by simp
  show ?thesis
    using h l e Incr_displaces_silently[OF h l i, where now=100 and n=5 and d=60 and x="Plain 2"]
    by (auto simp: n d p pb newItemInt64_def)
qed

text \<open>
  Claim C2. What the code does, for every key whose bucket exists: \<open>Incr\<close> on a missing
  key returns the delta and creates an entry that holds it; \<open>Incr\<close> on a key whose entry
  holds an integer and has not reached its deadline adds the delta to the stored integer,
  returns the sum and leaves the deadline as it was. \<open>IncrPromote\<close> does the same and
  also leaves the deadline as it was: it calls \<open>incr\<close>, as \<open>Incr\<close> does, and not
  \<open>incrNowPromote\<close>, the bucket method that stores the new deadline \<open>now + d\<close>.
\<close>

theorem IncrPromote_keeps_deadline:
  assumes "bucket c k = Some b"
  shows "(lookup c k = None \<longrightarrow>
            (\<exists>c'. Incr k n d now c = Some (n, c') \<and> lookup c' k = Some (nitems c) \<and>
                  heap c' (nitems c) = newItemInt64 k (IntPtr n) (now + d) False))
       \<and> (lookup c k = Some e \<and> e < nitems c \<and> now <s expires (heap c e) \<and>
          value_item (heap c e) = IntPtr v \<longrightarrow>
            (\<exists>c'. Incr k n d now c = Some (v + n, c') \<and> lookup c' k = Some e \<and>
                  value_item (heap c' e) = IntPtr (v + n) \<and>
                  expires (heap c' e) = expires (heap c e))
          \<and> (\<exists>c'. IncrPromote k n d now c = Some (v + n, c') \<and> lookup c' k = Some e \<and>
                  value_item (heap c' e) = IntPtr (v + n) \<and>
                  expires (heap c' e) = expires (heap c e))
          \<and> expires (heap (snd (bucket_incrNowPromote b k n now d False c)) e) = now + d)"
proof (intro conjI impI)
  assume m: "lookup c k = None"
  define c1 where "c1 = c\<lparr>heap := (heap c)(nitems c := newItemInt64 k (IntPtr n) (now + d) False),
                         nitems := Suc (nitems c)\<rparr>"
  have b1: "bucket c1 k = Some b" and bk: "buckets c1 = buckets c"
    using assms by (simp_all add: c1_def)
  have f: "bucket_incr b k n d False now c =
             ((n, Some (nitems c), None), store b (AList.update k (nitems c) (buckets c ! b)) c1)"
    using incrNow_fresh[OF assms, of now n d False] m by (simp add: c1_def)
  show "\<exists>c'. Incr k n d now c = Some (n, c') \<and> lookup c' k = Some (nitems c) \<and>
            heap c' (nitems c) = newItemInt64 k (IntPtr n) (now + d) False"
    using assms f lookup_store_update[OF b1, of "nitems c" k]
    by (simp add: Incr_def bk) (simp add: c1_def)
next
  assume a: "lookup c k = Some e \<and> e < nitems c \<and> now <s expires (heap c e) \<and>
             value_item (heap c e) = IntPtr v"
  then have ne: "e \<noteq> nitems c" by simp
  note hit = incrNow_hit[OF assms _ ne, of now v n d False]
  show "\<exists>c'. Incr k n d now c = Some (v + n, c') \<and> lookup c' k = Some e \<and>
            value_item (heap c' e) = IntPtr (v + n) \<and> expires (heap c' e) = expires (heap c e)"
    using assms a hit by (simp add: Incr_def)
  show "\<exists>c'. IncrPromote k n d now c = Some (v + n, c') \<and> lookup c' k = Some e \<and>
            value_item (heap c' e) = IntPtr (v + n) \<and> expires (heap c' e) = expires (heap c e)"
    using assms a hit by (simp add: IncrPromote_def)
  show "expires (heap (snd (bucket_incrNowPromote b k n now d False c)) e) = now + d"
    using a incrNowPromote_hit[OF assms _ ne, of now v n d False] by simp
qed

theorem IncrPromote_keeps_deadline_witness:
  "bucket ex_new 7 = Some 7 \<and> lookup ex_new 7 = None \<and>
   (\<exists>c'. Incr 7 5 60 0 ex_new = Some (5, c') \<and> lookup c' 7 = Some 0) \<and>
   bucket ex_incr 7 = Some 7 \<and> lookup ex_incr 7 = Some 0 \<and> 0 < nitems ex_incr \<and>
   10 <s expires (heap ex_incr 0) \<and> value_item (heap ex_incr 0) = IntPtr 5 \<and>
   (\<exists>c'. Incr 7 3 60 10 ex_incr = Some (8, c') \<and> expires (heap c' 0) = 60) \<and>
   (\<exists>c'. IncrPromote 7 3 60 10 ex_incr = Some (8, c') \<and> expires (heap c' 0) = 60 \<and>
         expires (heap c' 0) \<noteq> 10 + 60) \<and>
   expires (heap (snd (bucket_incrNowPromote 7 7 3 10 60 False ex_incr)) 0) = 70"
proof -
  have h0: "bucket ex_new 7 = Some 7" by code_simp
  have l0: "lookup ex_new 7 = None" by code_simp
  have n0: "nitems ex_new = 0" by code_simp
  have h: "bucket ex_incr 7 = Some 7" by code_simp
  have l: "lookup ex_incr 7 = Some 0" by code_simp
  have n: "nitems ex_incr = 1" by code_simp
  have e: "expires (heap ex_incr 0) = 60" by code_simp
  have v: "value_item (heap ex_incr 0) = IntPtr 5" by code_simp
  have A: "\<exists>c'. Incr 7 5 60 0 ex_new = Some (5, c') \<and> lookup c' 7 = Some 0"
    using IncrPromote_keeps_deadline[OF h0, where n=5 and d=60 and now=0] l0 n0 by auto
  have B: "(\<exists>c'. Incr 7 3 60 10 ex_incr = Some (8, c') \<and> expires (heap c' 0) = 60) \<and>
     (\<exists>c'. IncrPromote 7 3 60 10 ex_incr = Some (8, c') \<and> expires (heap c' 0) = 60 \<and>
         expires (heap c' 0) \<noteq> 10 + 60) \<and>
     expires (heap (snd (bucket_incrNowPromote 7 7 3 10 60 False ex_incr)) 0) = 70"
    using IncrPromote_keeps_deadline[OF h, where n=3 and d=60 and now=10 and e=0 and v=5] l n e v
    by auto
  show ?thesis using h0 l0 h l n e v A B by simp
qed

section \<open>Promotion\<close>


text \<open>
  An entry that is linked and has been read once since: the worker's handling of the next
  two promote messages for it does move it, from the back of the list to the front.
\<close>

theorem second_promote_moves_counterexample:
  "getsPerPromote (conf ex_touched) = 3 \<and> lst ex_touched = [1, 0] \<and>
   element (heap ex_touched 0) \<and> promotions (heap ex_touched 0) = 1 \<and>
   promotables ex_touched = [0, 0, 0] \<and>
   map_option lst (run [Worker_promote] ex_touched) = Some [1, 0] \<and>
   map_option lst (run [Worker_promote, Worker_promote] ex_touched) = Some [0, 1]"
  by code_simp



section \<open>Three sets into a cache of size two\<close>

text \<open>
  With \<open>itemsToPrune = 10\<close> the run does not end with one eviction, of A, and two
  items.
\<close>

theorem three_sets_counterexample:
  "sc_outcome 10 [set_A, set_B, set_C, Worker_promote, Worker_promote, Worker_promote]
     \<noteq> Some (1, [1], 2, [])"
  by code_simp

text \<open>
  Claim C1, amended. With max size 2 and \<open>itemsToPrune = 10\<close>, after \<open>Set(A)\<close>, \<open>Set(B)\<close>,
  \<open>Set(C)\<close> in this order with no reads, in each of the orders in which the worker can
  handle the three promote messages, once they are all handled three evictions have
  occurred, of A, then B, then C, and \<open>ItemCount()\<close> is 0: the sweep prunes up to
  \<open>itemsToPrune\<close> entries from the old end and does not stop when the size is within
  the bound. With \<open>itemsToPrune = 1\<close> exactly one eviction occurs, the evicted key is A and
  \<open>ItemCount()\<close> is 2.
\<close>

theorem three_sets_evictions:
  "map (sc_outcome 10) sc_schedules = replicate 5 (Some (3, [1, 2, 3], 0, []))
   \<and> map (sc_outcome 1) sc_schedules = replicate 5 (Some (1, [1], 2, []))"
  by code_simp

section \<open>The sweep\<close>





lemma call_onDelete_fields [simp]:
  "buckets (call_onDelete x c) = buckets c" "bucketMask (call_onDelete x c) = bucketMask c"
  "heap (call_onDelete x c) = heap c" "nitems (call_onDelete x c) = nitems c"
  "promotables (call_onDelete x c) = promotables c" "lst (call_onDelete x c) = lst c"
  "size_cache (call_onDelete x c) = size_cache c" "conf (call_onDelete x c) = conf c"
  "deletables (call_onDelete x c) = deletables c" "dropped (call_onDelete x c) = dropped c"
  by (simp_all add: call_onDelete_def split: option.splits)

lemma lookup_call_onDelete [simp]: "lookup (call_onDelete x c) = lookup c"
  by (simp add: call_onDelete_def split: option.splits)

lemma evict_fields [simp]:
  "bucketMask (evict b e c) = bucketMask c" "length (buckets (evict b e c)) = length (buckets c)"
  "heap (evict b e c) = (heap c)(e := (heap c e)\<lparr>promotions := - 2\<rparr>)"
  "nitems (evict b e c) = nitems c"
  "promotables (evict b e c) = promotables c" "lst (evict b e c) = removeAll e (lst c)"
  "size_cache (evict b e c) = size_cache c - size_item (heap c e)" "conf (evict b e c) = conf c"
  "deletables (evict b e c) = deletables c" "dropped (evict b e c) = dropped c"
  by (simp_all add: evict_def Let_def list_Remove_def)

lemma wf_evict [simp]: "wf_cache (evict b e c) = wf_cache c"
  by (simp add: wf_cache_def)




lemma list_Back_snoc [simp]: "list_Back (xs @ [e]) = Some e"
  by (simp add: list_Back_def)

lemma list_Back_Nil [simp]: "list_Back [] = None"
  by (simp add: list_Back_def)


lemma release_item_fields [simp]:
  "buckets (release_item i c) = buckets c" "bucketMask (release_item i c) = bucketMask c"
  "heap (release_item i c) = (heap c)(i := Release (heap c i))"
  "nitems (release_item i c) = nitems c"
  "promotables (release_item i c) = promotables c" "lst (release_item i c) = lst c"
  "size_cache (release_item i c) = size_cache c" "conf (release_item i c) = conf c"
  "deletables (release_item i c) = deletables c" "dropped (release_item i c) = dropped c"
  by (simp_all add: release_item_def)

lemma wf_release_item [simp]: "wf_cache (release_item i c) = wf_cache c"
  by (simp add: wf_cache_def)



section \<open>The capacity bound\<close>





















end
